theory Spec2Isabelle
  imports Main "HOL-Library.Word"
begin

section \<open>The DBC manager of cabana (tools/cabana/dbcmanager.cc)\<close>

text \<open>
  The manager keeps a list of pairs (source set, pointer to a DBC file object), resolves a
  bus (``source'') to the DBC file that governs it, forwards edits to that object and
  emits Qt signals. The embedding follows dbcmanager.cc function by function.

  \<^item> \<open>uint8_t\<close> is \<open>8 word\<close>, \<open>uint32_t\<close> is \<open>32 word\<close>.
  \<^item> \<open>DBCFile *\<close>, \<open>cabana::Signal *\<close> and \<open>const cabana::Msg *\<close> are addresses
    (\<open>nat\<close>); a pointer that may be \<open>nullptr\<close> is a \<open>ptr option\<close>.
  \<^item> The \<open>DBCFile\<close> objects live in an explicit store, \<open>heap\<close>, from addresses to
    object states: \<open>new\<close> allocates, \<open>delete\<close> frees, \<open>dbc_file->f(...)\<close> reads and
    writes the store at \<open>dbc_file\<close>.
  \<^item> \<open>emit\<close> with directly connected slots runs the observers before it returns, so
    every emitted signal is logged together with the store that the observers see at
    that moment.
  \<^item> \<open>assert\<close> failing, and following a pointer to a freed object, are error results.
\<close>

type_synonym u8 = "8 word"
type_synonym u32 = "32 word"
type_synonym ptr = nat

text \<open>
  \<open>SourceSet\<close> is declared in dbcmanager.h. The manager uses \<open>contains\<close>, \<open>|=\<close>,
  \<open>==\<close> and a range-based \<open>for\<close> over \<open>uint8_t\<close> members of it: a set of bus numbers.
\<close>

type_synonym SourceSet = "u8 set"

record MessageId =
  source :: u8
  address :: u32

datatype error = AssertionFailed | InvalidPointer

text \<open>The Qt signals of the manager, with their arguments.\<close>

datatype notification =
    DBCFileChanged
  | signalAdded MessageId ptr
  | signalUpdated ptr
  | signalRemoved ptr
  | msgUpdated MessageId
  | msgRemoved MessageId

text \<open>
  What dbcmanager.cc uses and does not define: the constant \<open>SOURCE_ALL\<close> and the
  iteration order of a \<open>SourceSet\<close> (dbcmanager.h), and the class \<open>DBCFile\<close>
  (dbcfile.h). They are parameters of every function below. \<open>'f\<close> is the state of a
  \<open>DBCFile\<close> object, \<open>'s\<close> is \<open>cabana::Signal\<close>, \<open>'m\<close> is \<open>cabana::Msg\<close>.
  A constructor that throws \<open>std::exception\<close> returns \<open>Inl\<close> of its \<open>what()\<close>.
  A member function that may change the object returns the new object state.
\<close>

record ('f, 's, 'm) externals =
  SOURCE_ALL :: SourceSet
  SourceSet_iter :: "SourceSet \<Rightarrow> u8 list"
  DBCFile_new :: "string \<Rightarrow> string + 'f"
  DBCFile_new_content :: "string \<Rightarrow> string \<Rightarrow> string + 'f"
  DBCFile_filename :: "'f \<Rightarrow> string"
  DBCFile_addSignal :: "'f \<Rightarrow> MessageId \<Rightarrow> 's \<Rightarrow> ptr option \<times> 'f"
  DBCFile_updateSignal :: "'f \<Rightarrow> MessageId \<Rightarrow> string \<Rightarrow> 's \<Rightarrow> ptr option \<times> 'f"
  DBCFile_getSignal :: "'f \<Rightarrow> MessageId \<Rightarrow> string \<Rightarrow> ptr option"
  DBCFile_removeSignal :: "'f \<Rightarrow> MessageId \<Rightarrow> string \<Rightarrow> 'f"
  DBCFile_updateMsg :: "'f \<Rightarrow> MessageId \<Rightarrow> string \<Rightarrow> u32 \<Rightarrow> 'f"
  DBCFile_removeMsg :: "'f \<Rightarrow> MessageId \<Rightarrow> 'f"
  DBCFile_getMessages :: "'f \<Rightarrow> (u32 \<times> 'm) list"
  DBCFile_msg :: "'f \<Rightarrow> MessageId \<Rightarrow> ptr option"
  DBCFile_msg_name :: "'f \<Rightarrow> string \<Rightarrow> ptr option"

text \<open>
  The manager: its two data members \<open>dbc_files\<close> and \<open>sources\<close>, the store of the
  \<open>DBCFile\<close> objects with the next free address, and the log of emitted signals.
\<close>

record 'f DBCManager =
  dbc_files :: "(SourceSet \<times> ptr) list"
  sources :: SourceSet
  heap :: "ptr \<Rightarrow> 'f option"
  next_ptr :: ptr
  emitted :: "(notification \<times> (ptr \<Rightarrow> 'f option)) list"

definition init_manager :: "'f DBCManager" where
  "init_manager =
     \<lparr>dbc_files = [], sources = {}, heap = (\<lambda>_. None), next_ptr = 0, emitted = []\<rparr>"

definition emit :: "notification \<Rightarrow> 'f DBCManager \<Rightarrow> 'f DBCManager" where
  "emit n m = m\<lparr>emitted := emitted m @ [(n, heap m)]\<rparr>"

text \<open>\<open>new DBCFile(...)\<close> once the constructor has returned the object \<open>d\<close>.\<close>

definition new_DBCFile :: "'f \<Rightarrow> 'f DBCManager \<Rightarrow> ptr \<times> 'f DBCManager" where
  "new_DBCFile d m =
     (next_ptr m, m\<lparr>heap := (heap m)(next_ptr m := Some d), next_ptr := Suc (next_ptr m)\<rparr>)"

definition delete_DBCFile :: "ptr \<Rightarrow> 'f DBCManager \<Rightarrow> 'f DBCManager" where
  "delete_DBCFile p m = m\<lparr>heap := (heap m)(p := None)\<rparr>"

text \<open>\<open>if (error) *error = e.what();\<close> on an out-parameter that may be null.\<close>

definition set_error :: "string option \<Rightarrow> string \<Rightarrow> string option" where
  "set_error error what = (case error of None \<Rightarrow> None | Some _ \<Rightarrow> Some what)"

subsection \<open>findDBCFile\<close>

text \<open>The first loop of \<open>findDBCFile\<close>: the first pair whose set contains the source.\<close>

fun find_containing :: "u8 \<Rightarrow> (SourceSet \<times> ptr) list \<Rightarrow> (SourceSet \<times> ptr) option" where
  "find_containing src [] = None"
| "find_containing src ((source_set, dbc_file) # rest) =
     (if src \<in> source_set then Some (source_set, dbc_file)
      else find_containing src rest)"

text \<open>
  The second loop: the first pair whose set equals \<open>SOURCE_ALL\<close>, returned with the
  manager's \<open>sources\<close> in place of its set.
\<close>

fun find_all :: "SourceSet \<Rightarrow> SourceSet \<Rightarrow> (SourceSet \<times> ptr) list \<Rightarrow> (SourceSet \<times> ptr) option" where
  "find_all all srcs [] = None"
| "find_all all srcs ((source_set, dbc_file) # rest) =
     (if source_set = all then Some (srcs, dbc_file) else find_all all srcs rest)"

definition findDBCFile ::
  "('f, 's, 'm) externals \<Rightarrow> 'f DBCManager \<Rightarrow> u8 \<Rightarrow> (SourceSet \<times> ptr) option" where
  "findDBCFile x m src =
     (case find_containing src (dbc_files m) of
        Some r \<Rightarrow> Some r
      | None \<Rightarrow> find_all (SOURCE_ALL x) (sources m) (dbc_files m))"

definition findDBCFile_id ::
  "('f, 's, 'm) externals \<Rightarrow> 'f DBCManager \<Rightarrow> MessageId \<Rightarrow> (SourceSet \<times> ptr) option" where
  "findDBCFile_id x m msg_id = findDBCFile x m (source msg_id)"

subsection \<open>open, closeAll\<close>

text \<open>
  The loop of \<open>open(s, dbc_file_name, error)\<close> from index \<open>i\<close>. \<open>None\<close>: the loop
  ended without returning. Otherwise the returned bool, the out-parameter and the
  manager. \<open>auto [ss, dbc_file] = dbc_files[i]\<close> copies the pair, so \<open>ss |= s\<close>
  changes the local copy \<open>ss\<close> and nothing else.
\<close>

function open_loop ::
  "('f, 's, 'm) externals \<Rightarrow> SourceSet \<Rightarrow> string \<Rightarrow> string option \<Rightarrow> 'f DBCManager \<Rightarrow> nat
     \<Rightarrow> (error + bool \<times> string option \<times> 'f DBCManager) option" where
  "open_loop x s dbc_file_name error m i =
     (if i < length (dbc_files m) then
        (case dbc_files m ! i of (ss, dbc_file) \<Rightarrow>
           (case heap m dbc_file of
              None \<Rightarrow> Some (Inl InvalidPointer)
            | Some f \<Rightarrow>
                if DBCFile_filename x f = dbc_file_name then
                  (let ss = ss \<union> s in Some (Inr (True, error, emit DBCFileChanged m)))
                else if ss = s then
                  (case DBCFile_new x dbc_file_name of
                     Inr d \<Rightarrow>
                       (case new_DBCFile d m of (p, m1) \<Rightarrow>
                          let m2 = m1\<lparr>dbc_files := (dbc_files m1)[i := (s, p)]\<rparr>;
                              m3 = delete_DBCFile dbc_file m2
                          in Some (Inr (True, error, emit DBCFileChanged m3)))
                   | Inl what \<Rightarrow> Some (Inr (False, set_error error what, m)))
                else open_loop x s dbc_file_name error m (Suc i)))
      else None)"
  by pat_completeness auto
termination
  by (relation "measure (\<lambda>(x, s, n, e, m, i). length (dbc_files m) - i)") auto

declare open_loop.simps [simp del]

definition open_file ::
  "('f, 's, 'm) externals \<Rightarrow> SourceSet \<Rightarrow> string \<Rightarrow> string option \<Rightarrow> 'f DBCManager
     \<Rightarrow> error + bool \<times> string option \<times> 'f DBCManager" where
  "open_file x s dbc_file_name error m =
     (case open_loop x s dbc_file_name error m 0 of
        Some r \<Rightarrow> r
      | None \<Rightarrow>
          (case DBCFile_new x dbc_file_name of
             Inr d \<Rightarrow>
               (case new_DBCFile d m of (p, m1) \<Rightarrow>
                  Inr (True, error, emit DBCFileChanged (m1\<lparr>dbc_files := dbc_files m1 @ [(s, p)]\<rparr>)))
           | Inl what \<Rightarrow> Inr (False, set_error error what, m)))"

definition open_content ::
  "('f, 's, 'm) externals \<Rightarrow> SourceSet \<Rightarrow> string \<Rightarrow> string \<Rightarrow> string option \<Rightarrow> 'f DBCManager
     \<Rightarrow> bool \<times> string option \<times> 'f DBCManager" where
  "open_content x s name content error m =
     (case DBCFile_new_content x name content of
        Inr d \<Rightarrow>
          (case new_DBCFile d m of (p, m1) \<Rightarrow>
             (True, error, emit DBCFileChanged (m1\<lparr>dbc_files := dbc_files m1 @ [(s, p)]\<rparr>)))
      | Inl what \<Rightarrow> (False, set_error error what, m))"

text \<open>The \<open>while\<close> loop of \<open>closeAll\<close>: \<open>back\<close>, \<open>pop_back\<close>, \<open>delete\<close>.\<close>

function closeAll_loop :: "'f DBCManager \<Rightarrow> 'f DBCManager" where
  "closeAll_loop m =
     (if dbc_files m \<noteq> [] then
        (let dbc_file = snd (last (dbc_files m));
             m1 = m\<lparr>dbc_files := butlast (dbc_files m)\<rparr>
         in closeAll_loop (delete_DBCFile dbc_file m1))
      else m)"
  by pat_completeness auto
termination
  by (relation "measure (\<lambda>m. length (dbc_files m))") (auto simp: delete_DBCFile_def)

declare closeAll_loop.simps [simp del]

definition closeAll :: "'f DBCManager \<Rightarrow> 'f DBCManager" where
  "closeAll m = emit DBCFileChanged (closeAll_loop m)"

definition dbcCount :: "'f DBCManager \<Rightarrow> int" where
  "dbcCount m = int (length (dbc_files m))"

definition updateSources :: "SourceSet \<Rightarrow> 'f DBCManager \<Rightarrow> 'f DBCManager" where
  "updateSources s m = m\<lparr>sources := s\<rparr>"

subsection \<open>Edits\<close>

text \<open>
  Every edit resolves the DBC file first and asserts that there is one. The loop
  \<open>for (uint8_t source : dbc_sources) emit ...\<close> is a \<open>fold\<close> over the members of the
  resolved set, in the order the set's iterator gives them.
\<close>

definition addSignal ::
  "('f, 's, 'm) externals \<Rightarrow> MessageId \<Rightarrow> 's \<Rightarrow> 'f DBCManager \<Rightarrow> error + 'f DBCManager" where
  "addSignal x msg_id sig m =
     (case findDBCFile_id x m msg_id of
        None \<Rightarrow> Inl AssertionFailed
      | Some (dbc_sources, dbc_file) \<Rightarrow>
          (case heap m dbc_file of
             None \<Rightarrow> Inl InvalidPointer
           | Some f \<Rightarrow>
               (case DBCFile_addSignal x f msg_id sig of (s, f') \<Rightarrow>
                  let m1 = m\<lparr>heap := (heap m)(dbc_file := Some f')\<rparr> in
                  (case s of
                     Some sp \<Rightarrow>
                       Inr (fold (\<lambda>src. emit (signalAdded \<lparr>source = src, address = address msg_id\<rparr> sp))
                              (SourceSet_iter x dbc_sources) m1)
                   | None \<Rightarrow> Inr m1))))"

definition updateSignal ::
  "('f, 's, 'm) externals \<Rightarrow> MessageId \<Rightarrow> string \<Rightarrow> 's \<Rightarrow> 'f DBCManager \<Rightarrow> error + 'f DBCManager" where
  "updateSignal x msg_id sig_name sig m =
     (case findDBCFile_id x m msg_id of
        None \<Rightarrow> Inl AssertionFailed
      | Some (_, dbc_file) \<Rightarrow>
          (case heap m dbc_file of
             None \<Rightarrow> Inl InvalidPointer
           | Some f \<Rightarrow>
               (case DBCFile_updateSignal x f msg_id sig_name sig of (s, f') \<Rightarrow>
                  let m1 = m\<lparr>heap := (heap m)(dbc_file := Some f')\<rparr> in
                  (case s of
                     Some sp \<Rightarrow> Inr (emit (signalUpdated sp) m1)
                   | None \<Rightarrow> Inr m1))))"

definition removeSignal ::
  "('f, 's, 'm) externals \<Rightarrow> MessageId \<Rightarrow> string \<Rightarrow> 'f DBCManager \<Rightarrow> error + 'f DBCManager" where
  "removeSignal x msg_id sig_name m =
     (case findDBCFile_id x m msg_id of
        None \<Rightarrow> Inl AssertionFailed
      | Some (_, dbc_file) \<Rightarrow>
          (case heap m dbc_file of
             None \<Rightarrow> Inl InvalidPointer
           | Some f \<Rightarrow>
               (case DBCFile_getSignal x f msg_id sig_name of
                  Some sp \<Rightarrow>
                    let m1 = emit (signalRemoved sp) m in
                    Inr (m1\<lparr>heap := (heap m1)(dbc_file := Some (DBCFile_removeSignal x f msg_id sig_name))\<rparr>)
                | None \<Rightarrow> Inr m)))"

definition updateMsg ::
  "('f, 's, 'm) externals \<Rightarrow> MessageId \<Rightarrow> string \<Rightarrow> u32 \<Rightarrow> 'f DBCManager \<Rightarrow> error + 'f DBCManager" where
  "updateMsg x msg_id name sz m =
     (case findDBCFile_id x m msg_id of
        None \<Rightarrow> Inl AssertionFailed
      | Some (dbc_sources, dbc_file) \<Rightarrow>
          (case heap m dbc_file of
             None \<Rightarrow> Inl InvalidPointer
           | Some f \<Rightarrow>
               let m1 = m\<lparr>heap := (heap m)(dbc_file := Some (DBCFile_updateMsg x f msg_id name sz))\<rparr> in
               Inr (fold (\<lambda>src. emit (msgUpdated \<lparr>source = src, address = address msg_id\<rparr>))
                      (SourceSet_iter x dbc_sources) m1)))"

definition removeMsg ::
  "('f, 's, 'm) externals \<Rightarrow> MessageId \<Rightarrow> 'f DBCManager \<Rightarrow> error + 'f DBCManager" where
  "removeMsg x msg_id m =
     (case findDBCFile_id x m msg_id of
        None \<Rightarrow> Inl AssertionFailed
      | Some (dbc_sources, dbc_file) \<Rightarrow>
          (case heap m dbc_file of
             None \<Rightarrow> Inl InvalidPointer
           | Some f \<Rightarrow>
               let m1 = m\<lparr>heap := (heap m)(dbc_file := Some (DBCFile_removeMsg x f msg_id))\<rparr> in
               Inr (fold (\<lambda>src. emit (msgRemoved \<lparr>source = src, address = address msg_id\<rparr>))
                      (SourceSet_iter x dbc_sources) m1)))"

subsection \<open>Queries\<close>

text \<open>
  \<open>getMessages(source)\<close>: the result \<open>std::map<MessageId, cabana::Msg>\<close> is a map; the
  loop stores each (address, msg) of the file under the key (source, address).
\<close>

definition getMessages ::
  "('f, 's, 'm) externals \<Rightarrow> 'f DBCManager \<Rightarrow> u8 \<Rightarrow> error + (MessageId \<Rightarrow> 'm option)" where
  "getMessages x m src =
     (let ret = (\<lambda>_. None) in
      case findDBCFile_id x m \<lparr>source = src, address = 0\<rparr> of
        None \<Rightarrow> Inr ret
      | Some (_, dbc_file) \<Rightarrow>
          (case heap m dbc_file of
             None \<Rightarrow> Inl InvalidPointer
           | Some f \<Rightarrow>
               Inr (fold (\<lambda>(addr, msg) ret. ret(\<lparr>source = src, address = addr\<rparr> := Some msg))
                      (DBCFile_getMessages x f) ret)))"

text \<open>\<open>msg(id)\<close> and \<open>msg(source, name)\<close>.\<close>

definition msg ::
  "('f, 's, 'm) externals \<Rightarrow> 'f DBCManager \<Rightarrow> MessageId \<Rightarrow> error + ptr option" where
  "msg x m msg_id =
     (case findDBCFile_id x m msg_id of
        None \<Rightarrow> Inr None
      | Some (_, dbc_file) \<Rightarrow>
          (case heap m dbc_file of
             None \<Rightarrow> Inl InvalidPointer
           | Some f \<Rightarrow> Inr (DBCFile_msg x f msg_id)))"

definition msg_name ::
  "('f, 's, 'm) externals \<Rightarrow> 'f DBCManager \<Rightarrow> u8 \<Rightarrow> string \<Rightarrow> error + ptr option" where
  "msg_name x m src name =
     (case findDBCFile_id x m \<lparr>source = src, address = 0\<rparr> of
        None \<Rightarrow> Inr None
      | Some (_, dbc_file) \<Rightarrow>
          (case heap m dbc_file of
             None \<Rightarrow> Inl InvalidPointer
           | Some f \<Rightarrow> Inr (DBCFile_msg_name x f name)))"

subsection \<open>Ownership\<close>

text \<open>
  The pointers of \<open>dbc_files\<close> are distinct, allocated and not freed: every pair owns its
  file. The operations keep this, so no pointer of the list is ever followed to a freed
  object.
\<close>

definition valid :: "'f DBCManager \<Rightarrow> bool" where
  "valid m =
     (distinct (map snd (dbc_files m)) \<and>
      (\<forall>(ss, p) \<in> set (dbc_files m). p < next_ptr m \<and> heap m p \<noteq> None))"

subsection \<open>A DBC file for concrete runs\<close>

text \<open>
  Modelled from the spec: the class \<open>DBCFile\<close> (dbcfile.cc is not among the sources).
  A database owns messages, each identified by its address, and signals, each identified
  by its name within a message; it rejects adding a signal whose name is taken and
  updating a signal it does not have; loading it may fail with an error string. The
  theorems below hold for every \<open>externals\<close>; this one instance runs them.
  A signal is its name, a message is its name and size.
\<close>

record test_file =
  tf_filename :: string
  tf_msgs :: "(u32 \<times> string \<times> u32) list"
  tf_sigs :: "(ptr \<times> u32 \<times> string) list"
  tf_next :: ptr

fun tf_find :: "(ptr \<times> u32 \<times> string) list \<Rightarrow> u32 \<Rightarrow> string \<Rightarrow> ptr option" where
  "tf_find [] a n = None"
| "tf_find ((p, a', n') # rest) a n = (if a' = a \<and> n' = n then Some p else tf_find rest a n)"

definition tf_new :: "string \<Rightarrow> string + test_file" where
  "tf_new name =
     (if name = [] then Inl ''Failed to open file.''
      else Inr \<lparr>tf_filename = name, tf_msgs = [], tf_sigs = [], tf_next = 0\<rparr>)"

definition tf_new_content :: "string \<Rightarrow> string \<Rightarrow> string + test_file" where
  "tf_new_content name content =
     (if content = [] then Inl ''Failed to parse.''
      else Inr \<lparr>tf_filename = [], tf_msgs = [], tf_sigs = [], tf_next = 0\<rparr>)"

definition tf_addSignal :: "test_file \<Rightarrow> MessageId \<Rightarrow> string \<Rightarrow> ptr option \<times> test_file" where
  "tf_addSignal f msg_id sig =
     (case tf_find (tf_sigs f) (address msg_id) sig of
        Some _ \<Rightarrow> (None, f)
      | None \<Rightarrow>
          (Some (tf_next f),
           f\<lparr>tf_sigs := tf_sigs f @ [(tf_next f, address msg_id, sig)], tf_next := Suc (tf_next f)\<rparr>))"

definition tf_updateSignal ::
  "test_file \<Rightarrow> MessageId \<Rightarrow> string \<Rightarrow> string \<Rightarrow> ptr option \<times> test_file" where
  "tf_updateSignal f msg_id sig_name sig =
     (case tf_find (tf_sigs f) (address msg_id) sig_name of
        None \<Rightarrow> (None, f)
      | Some p \<Rightarrow>
          (Some p, f\<lparr>tf_sigs := map (\<lambda>(q, a, n). if q = p then (q, a, sig) else (q, a, n)) (tf_sigs f)\<rparr>))"

definition tf_getSignal :: "test_file \<Rightarrow> MessageId \<Rightarrow> string \<Rightarrow> ptr option" where
  "tf_getSignal f msg_id sig_name = tf_find (tf_sigs f) (address msg_id) sig_name"

definition tf_removeSignal :: "test_file \<Rightarrow> MessageId \<Rightarrow> string \<Rightarrow> test_file" where
  "tf_removeSignal f msg_id sig_name =
     f\<lparr>tf_sigs := filter (\<lambda>(q, a, n). \<not> (a = address msg_id \<and> n = sig_name)) (tf_sigs f)\<rparr>"

definition tf_updateMsg :: "test_file \<Rightarrow> MessageId \<Rightarrow> string \<Rightarrow> u32 \<Rightarrow> test_file" where
  "tf_updateMsg f msg_id name sz =
     f\<lparr>tf_msgs := filter (\<lambda>(a, _). a \<noteq> address msg_id) (tf_msgs f) @ [(address msg_id, name, sz)]\<rparr>"

definition tf_removeMsg :: "test_file \<Rightarrow> MessageId \<Rightarrow> test_file" where
  "tf_removeMsg f msg_id = f\<lparr>tf_msgs := filter (\<lambda>(a, _). a \<noteq> address msg_id) (tf_msgs f)\<rparr>"

definition tf_msg :: "test_file \<Rightarrow> MessageId \<Rightarrow> ptr option" where
  "tf_msg f msg_id =
     (case map_of (tf_msgs f) (address msg_id) of None \<Rightarrow> None | Some _ \<Rightarrow> Some (unat (address msg_id)))"

definition tf_msg_name :: "test_file \<Rightarrow> string \<Rightarrow> ptr option" where
  "tf_msg_name f name =
     (case filter (\<lambda>(a, n, _). n = name) (tf_msgs f) of [] \<Rightarrow> None | (a, _) # _ \<Rightarrow> Some (unat a))"

definition test_externals :: "(test_file, string, string \<times> u32) externals" where
  "test_externals =
     \<lparr>SOURCE_ALL = {},
      SourceSet_iter = sorted_list_of_set,
      DBCFile_new = tf_new,
      DBCFile_new_content = tf_new_content,
      DBCFile_filename = tf_filename,
      DBCFile_addSignal = tf_addSignal,
      DBCFile_updateSignal = tf_updateSignal,
      DBCFile_getSignal = tf_getSignal,
      DBCFile_removeSignal = tf_removeSignal,
      DBCFile_updateMsg = tf_updateMsg,
      DBCFile_removeMsg = tf_removeMsg,
      DBCFile_getMessages = tf_msgs,
      DBCFile_msg = tf_msg,
      DBCFile_msg_name = tf_msg_name\<rparr>"

subsection \<open>Concrete managers\<close>

text \<open>
  A manager with a wildcard file (its set is the \<open>SOURCE_ALL\<close> of \<open>test_externals\<close>)
  ahead of a file for bus 1, and the buses 0, 1, 2 known.
\<close>

definition wm :: "test_file DBCManager" where
  "wm = \<lparr>dbc_files = [({}, 0), ({1}, 1)], sources = {0, 1, 2},
     heap = (\<lambda>_. None)(0 := Some \<lparr>tf_filename = ''all.dbc'', tf_msgs = [], tf_sigs = [], tf_next = 0\<rparr>,
                         1 := Some \<lparr>tf_filename = ''one.dbc'', tf_msgs = [], tf_sigs = [], tf_next = 0\<rparr>),
     next_ptr = 2, emitted = []\<rparr>"

text \<open>
  The manager after \<open>open({1}, "a.dbc")\<close> on the initial manager: one file, at address 0.
\<close>

definition a_dbc :: test_file where
  "a_dbc = \<lparr>tf_filename = ''a.dbc'', tf_msgs = [], tf_sigs = [], tf_next = 0\<rparr>"

definition opened_a :: "test_file DBCManager" where
  "opened_a =
     \<lparr>dbc_files = [({1}, 0)], sources = {}, heap = (\<lambda>_. None)(0 := Some a_dbc),
      next_ptr = 1, emitted = [(DBCFileChanged, (\<lambda>_. None)(0 := Some a_dbc))]\<rparr>"

text \<open>
  Managers with one file shared by the buses 1, 2 and 3: the file without signals and
  messages, with the signal \<open>speed\<close> in message 5, and with two messages.
\<close>

definition shared_a :: "test_file DBCManager" where
  "shared_a =
     \<lparr>dbc_files = [({1, 2, 3}, 0)], sources = {}, heap = (\<lambda>_. None)(0 := Some a_dbc),
      next_ptr = 1, emitted = []\<rparr>"

definition a_dbc_speed :: test_file where
  "a_dbc_speed = \<lparr>tf_filename = ''a.dbc'', tf_msgs = [], tf_sigs = [(0, 5, ''speed'')], tf_next = 1\<rparr>"

definition shared_speed :: "test_file DBCManager" where
  "shared_speed =
     \<lparr>dbc_files = [({1, 2, 3}, 0)], sources = {}, heap = (\<lambda>_. None)(0 := Some a_dbc_speed),
      next_ptr = 1, emitted = []\<rparr>"

definition a_dbc_msgs :: test_file where
  "a_dbc_msgs = \<lparr>tf_filename = ''a.dbc'', tf_msgs = [(5, ''GAS'', 8), (6, ''BRAKE'', 4)],
     tf_sigs = [], tf_next = 0\<rparr>"

definition shared_msgs :: "test_file DBCManager" where
  "shared_msgs =
     \<lparr>dbc_files = [({1, 2, 3}, 0)], sources = {}, heap = (\<lambda>_. None)(0 := Some a_dbc_msgs),
      next_ptr = 1, emitted = []\<rparr>"

section \<open>Resolution\<close>

lemma find_containing_first:
  "i < length fs \<Longrightarrow> src \<in> fst (fs ! i) \<Longrightarrow> (\<forall>j<i. src \<notin> fst (fs ! j))
     \<Longrightarrow> find_containing src fs = Some (fs ! i)"
proof (induction fs arbitrary: i)
  case Nil
  then show ?case by simp
next
  case (Cons a fs)
  obtain S p where a: "a = (S, p)" by (cases a)
  show ?case
  proof (cases i)
    case 0
    with Cons.prems a show ?thesis by simp
  next
    case (Suc k)
    from Cons.prems Suc have "src \<notin> fst ((a # fs) ! 0)" by blast
    with a have nin: "src \<notin> S" by simp
    from Cons.prems Suc have "k < length fs" "src \<in> fst (fs ! k)" by simp_all
    moreover from Cons.prems(3) Suc have "\<forall>j<k. src \<notin> fst (fs ! j)" by auto
    ultimately have "find_containing src fs = Some (fs ! k)" by (rule Cons.IH)
    with a nin Suc show ?thesis by simp
  qed
qed

lemma find_containing_None:
  "(find_containing src fs = None) = (\<forall>(S, p) \<in> set fs. src \<notin> S)"
  by (induction src fs rule: find_containing.induct) simp_all

lemma find_containing_Some:
  "find_containing src fs = Some (S, p) \<Longrightarrow> (S, p) \<in> set fs \<and> src \<in> S"
  by (induction src fs rule: find_containing.induct) (auto split: if_splits)

lemma find_all_first:
  "i < length fs \<Longrightarrow> fst (fs ! i) = all \<Longrightarrow> (\<forall>j<i. fst (fs ! j) \<noteq> all)
     \<Longrightarrow> find_all all srcs fs = Some (srcs, snd (fs ! i))"
proof (induction fs arbitrary: i)
  case Nil
  then show ?case by simp
next
  case (Cons a fs)
  obtain S p where a: "a = (S, p)" by (cases a)
  show ?case
  proof (cases i)
    case 0
    with Cons.prems a show ?thesis by simp
  next
    case (Suc k)
    from Cons.prems Suc have "fst ((a # fs) ! 0) \<noteq> all" by blast
    with a have nin: "S \<noteq> all" by simp
    from Cons.prems Suc have "k < length fs" "fst (fs ! k) = all" by simp_all
    moreover from Cons.prems(3) Suc have "\<forall>j<k. fst (fs ! j) \<noteq> all" by auto
    ultimately have "find_all all srcs fs = Some (srcs, snd (fs ! k))" by (rule Cons.IH)
    with a nin Suc show ?thesis by simp
  qed
qed

lemma find_all_None:
  "(find_all all srcs fs = None) = (\<forall>(S, p) \<in> set fs. S \<noteq> all)"
  by (induction all srcs fs rule: find_all.induct) simp_all

text \<open>
  C1. \<open>findDBCFile\<close> returns the first pair, in the order of \<open>dbc_files\<close>, whose set
  contains the source, with that pair's own set: such a pair is found whatever pairs with
  the set \<open>SOURCE_ALL\<close> the list holds, before or after it. When no pair contains the
  source, it returns the file of the first pair whose set equals \<open>SOURCE_ALL\<close>, together
  with the manager's \<open>sources\<close>. It returns nothing exactly when no pair contains the
  source and no pair has the set \<open>SOURCE_ALL\<close>. So a pair for the source shadows the
  wildcard pair: for a source that \<open>SOURCE_ALL\<close> does not hold as a member, when some
  pair contains it the result is such a pair and not a wildcard pair.
\<close>

theorem findDBCFile_policy:
  "(\<forall>i<length (dbc_files m). src \<in> fst (dbc_files m ! i) \<longrightarrow>
       (\<forall>j<i. src \<notin> fst (dbc_files m ! j)) \<longrightarrow>
       findDBCFile x m src = Some (dbc_files m ! i)) \<and>
   ((\<forall>(S, p) \<in> set (dbc_files m). src \<notin> S) \<longrightarrow>
      (\<forall>i<length (dbc_files m). fst (dbc_files m ! i) = SOURCE_ALL x \<longrightarrow>
         (\<forall>j<i. fst (dbc_files m ! j) \<noteq> SOURCE_ALL x) \<longrightarrow>
         findDBCFile x m src = Some (sources m, snd (dbc_files m ! i)))) \<and>
   ((findDBCFile x m src = None) =
      (\<forall>(S, p) \<in> set (dbc_files m). src \<notin> S \<and> S \<noteq> SOURCE_ALL x)) \<and>
   (src \<notin> SOURCE_ALL x \<longrightarrow> (\<exists>(S, p) \<in> set (dbc_files m). src \<in> S) \<longrightarrow>
      (\<exists>S p. findDBCFile x m src = Some (S, p) \<and> (S, p) \<in> set (dbc_files m) \<and>
         src \<in> S \<and> S \<noteq> SOURCE_ALL x))"
proof (intro conjI allI impI)
  fix i
  assume "i < length (dbc_files m)" "src \<in> fst (dbc_files m ! i)"
    "\<forall>j<i. src \<notin> fst (dbc_files m ! j)"
  then have "find_containing src (dbc_files m) = Some (dbc_files m ! i)"
    by (rule find_containing_first)
  then show "findDBCFile x m src = Some (dbc_files m ! i)"
    by (simp add: findDBCFile_def)
next
  fix i
  assume none: "\<forall>(S, p) \<in> set (dbc_files m). src \<notin> S"
    and "i < length (dbc_files m)" "fst (dbc_files m ! i) = SOURCE_ALL x"
    "\<forall>j<i. fst (dbc_files m ! j) \<noteq> SOURCE_ALL x"
  then have "find_all (SOURCE_ALL x) (sources m) (dbc_files m) = Some (sources m, snd (dbc_files m ! i))"
    by (intro find_all_first)
  moreover from none have "find_containing src (dbc_files m) = None"
    by (simp add: find_containing_None)
  ultimately show "findDBCFile x m src = Some (sources m, snd (dbc_files m ! i))"
    by (simp add: findDBCFile_def)
next
  show "(findDBCFile x m src = None) =
      (\<forall>(S, p) \<in> set (dbc_files m). src \<notin> S \<and> S \<noteq> SOURCE_ALL x)"
  proof (cases "find_containing src (dbc_files m)")
    case None
    then show ?thesis
      using find_containing_None [of src "dbc_files m"]
        find_all_None [of "SOURCE_ALL x" "sources m" "dbc_files m"]
      by (simp add: findDBCFile_def split_beta)
  next
    case (Some r)
    then show ?thesis
      using find_containing_None [of src "dbc_files m"]
      by (auto simp: findDBCFile_def split_beta)
  qed
next
  assume nall: "src \<notin> SOURCE_ALL x" and ex: "\<exists>(S, p) \<in> set (dbc_files m). src \<in> S"
  from ex have "find_containing src (dbc_files m) \<noteq> None"
    by (simp add: find_containing_None split_beta)
  then obtain S p where f: "find_containing src (dbc_files m) = Some (S, p)"
    by auto
  from find_containing_Some [OF f] nall
  have "(S, p) \<in> set (dbc_files m) \<and> src \<in> S \<and> S \<noteq> SOURCE_ALL x"
    by auto
  with f show "\<exists>S p. findDBCFile x m src = Some (S, p) \<and> (S, p) \<in> set (dbc_files m) \<and>
         src \<in> S \<and> S \<noteq> SOURCE_ALL x"
    by (simp add: findDBCFile_def)
qed

theorem findDBCFile_policy_witness:
  "findDBCFile test_externals wm 1 = Some ({1}, 1) \<and>
   findDBCFile test_externals wm 2 = Some ({0, 1, 2}, 0) \<and>
   findDBCFile test_externals (wm\<lparr>dbc_files := [({1}, 1)]\<rparr>) 2 = None"
proof -
  note pol = findDBCFile_policy [where x = test_externals]
  have fs: "dbc_files wm = [({}, 0), ({1}, 1)]" and srcs: "sources wm = {0, 1, 2}"
    by (simp_all add: wm_def)
  have all: "SOURCE_ALL test_externals = {}"
    by (simp add: test_externals_def)
  have "(1::nat) < length (dbc_files wm)" "(1::u8) \<in> fst (dbc_files wm ! 1)"
    "\<forall>j<1. (1::u8) \<notin> fst (dbc_files wm ! j)"
    by (simp_all add: fs)
  with pol [of wm 1] have "findDBCFile test_externals wm 1 = Some (dbc_files wm ! 1)"
    by blast
  then have a: "findDBCFile test_externals wm 1 = Some ({1}, 1)"
    by (simp add: fs)
  have "\<forall>(S, p) \<in> set (dbc_files wm). (2::u8) \<notin> S" "(0::nat) < length (dbc_files wm)"
    "fst (dbc_files wm ! 0) = SOURCE_ALL test_externals"
    "\<forall>j<0. fst (dbc_files wm ! j) \<noteq> SOURCE_ALL test_externals"
    by (simp_all add: fs all)
  with pol [of wm 2]
  have "findDBCFile test_externals wm 2 = Some (sources wm, snd (dbc_files wm ! 0))"
    by blast
  then have b: "findDBCFile test_externals wm 2 = Some ({0, 1, 2}, 0)"
    by (simp add: fs srcs)
  have "\<forall>(S, p) \<in> set (dbc_files (wm\<lparr>dbc_files := [({1}, 1)]\<rparr>)).
          (2::u8) \<notin> S \<and> S \<noteq> SOURCE_ALL test_externals"
    by (simp add: all)
  with pol [of "wm\<lparr>dbc_files := [({1}, 1)]\<rparr>" 2]
  have c: "findDBCFile test_externals (wm\<lparr>dbc_files := [({1}, 1)]\<rparr>) 2 = None"
    by blast
  from a b c show ?thesis by simp
qed

section \<open>Opening files\<close>

lemma open_loop_merge_here:
  "i < length (dbc_files m) \<Longrightarrow> heap m (snd (dbc_files m ! i)) = Some f
     \<Longrightarrow> DBCFile_filename x f = dbc_file_name
     \<Longrightarrow> open_loop x s dbc_file_name error m i = Some (Inr (True, error, emit DBCFileChanged m))"
  by (subst open_loop.simps) (simp add: split_beta)

text \<open>
  C2. Opening the same file for the source set \<open>s1\<close> and then for \<open>s2\<close>, from the
  initial manager, with a constructor that succeeds and keeps the file name: the second
  call finds the file open, returns true and emits \<open>DBCFileChanged\<close>, and there is still
  one pair (\<open>dbcCount\<close> is 1). Its set is still \<open>s1\<close>, not the union of \<open>s1\<close> and
  \<open>s2\<close>: the union went into the copy \<open>ss\<close> of the pair, so a bus of \<open>s2\<close> outside
  \<open>s1\<close> does not resolve to the file. For {1} and then {2}, the set stays {1} and bus 2
  resolves to nothing.
\<close>

theorem open_same_file_twice:
  "DBCFile_new x dbc_file_name = Inr d \<Longrightarrow> DBCFile_filename x d = dbc_file_name \<Longrightarrow>
   (\<exists>m1. open_file x s1 dbc_file_name error init_manager = Inr (True, error, m1) \<and>
      dbc_files m1 = [(s1, 0)] \<and> heap m1 0 = Some d \<and>
      open_file x s2 dbc_file_name error m1 = Inr (True, error, emit DBCFileChanged m1) \<and>
      dbc_files (emit DBCFileChanged m1) = [(s1, 0)] \<and>
      dbcCount (emit DBCFileChanged m1) = 1 \<and>
      (\<forall>src. src \<notin> s1 \<longrightarrow> s1 \<noteq> SOURCE_ALL x \<longrightarrow>
         findDBCFile x (emit DBCFileChanged m1) src = None))"
proof -
  assume new: "DBCFile_new x dbc_file_name = Inr d" and name: "DBCFile_filename x d = dbc_file_name"
  let ?m0 = "init_manager :: 'a DBCManager"
  let ?m1 = "emit DBCFileChanged
     (?m0\<lparr>heap := (heap ?m0)(0 := Some d), next_ptr := Suc 0, dbc_files := [(s1, 0)]\<rparr>)"
  have "open_loop x s1 dbc_file_name error ?m0 0 = None"
    by (subst open_loop.simps) (simp add: init_manager_def)
  with new have first: "open_file x s1 dbc_file_name error ?m0 = Inr (True, error, ?m1)"
    by (simp add: open_file_def new_DBCFile_def init_manager_def)
  have fs: "dbc_files ?m1 = [(s1, 0)]" and obj: "heap ?m1 0 = Some d"
    by (simp_all add: emit_def)
  have "open_loop x s2 dbc_file_name error ?m1 0 = Some (Inr (True, error, emit DBCFileChanged ?m1))"
    by (rule open_loop_merge_here [where f = d]) (simp_all add: fs obj name)
  then have second: "open_file x s2 dbc_file_name error ?m1 = Inr (True, error, emit DBCFileChanged ?m1)"
    by (simp add: open_file_def)
  have after: "dbc_files (emit DBCFileChanged ?m1) = [(s1, 0)]"
    by (simp add: emit_def)
  then have cnt: "dbcCount (emit DBCFileChanged ?m1) = 1"
    by (simp add: dbcCount_def)
  have "findDBCFile x (emit DBCFileChanged ?m1) src = None" if "src \<notin> s1" "s1 \<noteq> SOURCE_ALL x" for src
    using that by (simp add: findDBCFile_def after)
  with first fs obj second after cnt show ?thesis
    by blast
qed

theorem open_same_file_twice_witness:
  "open_file test_externals {1} ''a.dbc'' None init_manager = Inr (True, None, opened_a) \<and>
   open_file test_externals {2} ''a.dbc'' None opened_a = Inr (True, None, emit DBCFileChanged opened_a) \<and>
   dbc_files (emit DBCFileChanged opened_a) = [({1}, 0)] \<and>
   dbcCount (emit DBCFileChanged opened_a) = 1 \<and>
   findDBCFile test_externals (emit DBCFileChanged opened_a) 2 = None"
proof -
  have new: "DBCFile_new test_externals ''a.dbc'' = Inr a_dbc"
    and name: "DBCFile_filename test_externals a_dbc = ''a.dbc''"
    by (simp_all add: test_externals_def tf_new_def a_dbc_def)
  have first: "open_file test_externals {1} ''a.dbc'' None init_manager = Inr (True, None, opened_a)"
  proof -
    have "open_loop test_externals {1} ''a.dbc'' None (init_manager :: test_file DBCManager) 0 = None"
      by (subst open_loop.simps) (simp add: init_manager_def)
    with new show ?thesis
      by (simp add: open_file_def new_DBCFile_def emit_def init_manager_def opened_a_def)
  qed
  from open_same_file_twice [OF new name, of "{1}" None "{2}"] first
  have "open_file test_externals {2} ''a.dbc'' None opened_a = Inr (True, None, emit DBCFileChanged opened_a) \<and>
      dbc_files (emit DBCFileChanged opened_a) = [({1}, 0)] \<and>
      dbcCount (emit DBCFileChanged opened_a) = 1 \<and>
      (\<forall>src. src \<notin> {1} \<longrightarrow> {1} \<noteq> SOURCE_ALL test_externals \<longrightarrow>
         findDBCFile test_externals (emit DBCFileChanged opened_a) src = None)"
    by auto
  moreover have "(2::u8) \<notin> {1}" "{1} \<noteq> SOURCE_ALL test_externals"
    by (simp_all add: test_externals_def)
  ultimately show ?thesis
    using first by blast
qed

lemma open_loop_construction_fails:
  "DBCFile_new x n = Inl what \<Longrightarrow>
     open_loop x s n e m i = None \<or>
     open_loop x s n e m i = Some (Inr (False, set_error e what, m)) \<or>
     (open_loop x s n e m i = Some (Inr (True, e, emit DBCFileChanged m)) \<and>
        (\<exists>(ss, p) \<in> set (dbc_files m). \<exists>f. heap m p = Some f \<and> DBCFile_filename x f = n)) \<or>
     (open_loop x s n e m i = Some (Inl InvalidPointer) \<and>
        (\<exists>(ss, p) \<in> set (dbc_files m). heap m p = None))"
proof (induction x s n e m i rule: open_loop.induct)
  case (1 x s n e m i)
  show ?case
  proof (cases "i < length (dbc_files m)")
    case False
    then show ?thesis by (subst open_loop.simps) simp
  next
    case True
    obtain ss p where sp: "dbc_files m ! i = (ss, p)" by (cases "dbc_files m ! i")
    with True have mem: "(ss, p) \<in> set (dbc_files m)" by (metis nth_mem)
    show ?thesis
    proof (cases "heap m p")
      case None
      with True sp have "open_loop x s n e m i = Some (Inl InvalidPointer)"
        by (subst open_loop.simps) simp
      with None mem show ?thesis by blast
    next
      case (Some f)
      show ?thesis
      proof (cases "DBCFile_filename x f = n")
        case True
        with \<open>i < length (dbc_files m)\<close> sp Some
        have "open_loop x s n e m i = Some (Inr (True, e, emit DBCFileChanged m))"
          by (subst open_loop.simps) simp
        with True Some mem show ?thesis by blast
      next
        case diff: False
        show ?thesis
        proof (cases "ss = s")
          case True
          with diff \<open>i < length (dbc_files m)\<close> sp Some "1.prems"
          have "open_loop x s n e m i = Some (Inr (False, set_error e what, m))"
            by (subst open_loop.simps) simp
          then show ?thesis by blast
        next
          case False
          with diff \<open>i < length (dbc_files m)\<close> sp Some
          have "open_loop x s n e m i = open_loop x s n e m (Suc i)"
            by (subst open_loop.simps) simp
          moreover from False diff \<open>i < length (dbc_files m)\<close> sp Some "1.prems"
          have "open_loop x s n e m (Suc i) = None \<or>
            open_loop x s n e m (Suc i) = Some (Inr (False, set_error e what, m)) \<or>
            (open_loop x s n e m (Suc i) = Some (Inr (True, e, emit DBCFileChanged m)) \<and>
              (\<exists>(ss, p) \<in> set (dbc_files m). \<exists>f. heap m p = Some f \<and> DBCFile_filename x f = n)) \<or>
            (open_loop x s n e m (Suc i) = Some (Inl InvalidPointer) \<and>
              (\<exists>(ss, p) \<in> set (dbc_files m). heap m p = None))"
            by (intro "1.IH" [of ss p f]) simp_all
          ultimately show ?thesis by simp
        qed
      qed
    qed
  qed
qed

text \<open>
  C3. When the constructor of the new \<open>DBCFile\<close> throws, \<open>open\<close> returns false with
  the manager exactly as it was (the list of pairs, every \<open>DBCFile\<close> object, the log of
  emitted signals) and the exception's text in the out-parameter when the caller gave
  one. This covers the replace path and the append path. The only other outcomes do not
  construct anything: the file name is already open (the merge path, which returns true
  before any construction), or a pair points to a freed object.
\<close>

theorem open_file_construction_failure:
  "DBCFile_new x dbc_file_name = Inl what \<Longrightarrow>
     (open_file x s dbc_file_name error m = Inr (False, set_error error what, m) \<or>
      open_file x s dbc_file_name error m = Inr (True, error, emit DBCFileChanged m) \<or>
      open_file x s dbc_file_name error m = Inl InvalidPointer) \<and>
     (open_file x s dbc_file_name error m = Inr (True, error, emit DBCFileChanged m) \<longrightarrow>
        (\<exists>(ss, p) \<in> set (dbc_files m). \<exists>f. heap m p = Some f \<and> DBCFile_filename x f = dbc_file_name)) \<and>
     (open_file x s dbc_file_name error m = Inl InvalidPointer \<longrightarrow>
        (\<exists>(ss, p) \<in> set (dbc_files m). heap m p = None))"
  using open_loop_construction_fails [of x dbc_file_name what s error m 0]
  by (auto simp: open_file_def)

theorem open_file_construction_failure_witness:
  "DBCFile_new test_externals [] = Inl ''Failed to open file.'' \<and>
   open_file test_externals {1} [] (Some []) opened_a
     = Inr (False, Some ''Failed to open file.'', opened_a) \<and>
   open_file test_externals {2} [] None opened_a = Inr (False, None, opened_a)"
proof -
  have new: "DBCFile_new test_externals [] = Inl ''Failed to open file.''"
    by (simp add: test_externals_def tf_new_def)
  have live: "\<not> (\<exists>(ss, p) \<in> set (dbc_files opened_a). heap opened_a p = None)"
    by (simp add: opened_a_def)
  have other: "\<not> (\<exists>(ss, p) \<in> set (dbc_files opened_a).
      \<exists>f. heap opened_a p = Some f \<and> DBCFile_filename test_externals f = [])"
    by (simp add: opened_a_def a_dbc_def test_externals_def)
  from open_file_construction_failure [OF new, of "{1}" "Some []" opened_a] live other
  have "open_file test_externals {1} [] (Some []) opened_a
          = Inr (False, set_error (Some []) ''Failed to open file.'', opened_a)"
    by blast
  moreover
  from open_file_construction_failure [OF new, of "{2}" None opened_a] live other
  have "open_file test_externals {2} [] None opened_a
          = Inr (False, set_error None ''Failed to open file.'', opened_a)"
    by blast
  ultimately show ?thesis
    using new by (simp add: set_error_def)
qed

section \<open>closeAll\<close>

lemma closeAll_loop_files: "dbc_files (closeAll_loop m) = []"
proof (induction m rule: closeAll_loop.induct)
  case (1 m)
  then show ?case
    by (subst closeAll_loop.simps) (simp add: Let_def)
qed

lemma closeAll_loop_keeps:
  "emitted (closeAll_loop m) = emitted m \<and> sources (closeAll_loop m) = sources m \<and>
   next_ptr (closeAll_loop m) = next_ptr m"
proof (induction m rule: closeAll_loop.induct)
  case (1 m)
  then show ?case
    by (subst (1 2 3) closeAll_loop.simps) (simp add: Let_def delete_DBCFile_def)
qed

lemma closeAll_loop_heap:
  "heap (closeAll_loop m) p = (if p \<in> snd ` set (dbc_files m) then None else heap m p)"
proof (induction m rule: closeAll_loop.induct)
  case (1 m)
  show ?case
  proof (cases "dbc_files m = []")
    case True
    then show ?thesis by (subst closeAll_loop.simps) simp
  next
    case False
    let ?m' = "delete_DBCFile (snd (last (dbc_files m))) (m\<lparr>dbc_files := butlast (dbc_files m)\<rparr>)"
    have step: "closeAll_loop m = closeAll_loop ?m'"
      using False by (subst closeAll_loop.simps) (simp add: Let_def)
    have ih: "heap (closeAll_loop ?m') p =
        (if p \<in> snd ` set (dbc_files ?m') then None else heap ?m' p)"
      using False by (intro "1.IH") simp_all
    have fs: "dbc_files ?m' = butlast (dbc_files m)"
      by (simp add: delete_DBCFile_def)
    have hp: "heap ?m' p = (if p = snd (last (dbc_files m)) then None else heap m p)"
      by (simp add: delete_DBCFile_def)
    have split: "set (dbc_files m) = insert (last (dbc_files m)) (set (butlast (dbc_files m)))"
      using False by (metis append_butlast_last_id list.simps(15) rotate1.simps(2) set_rotate1)
    show ?thesis
      unfolding step ih fs hp split by auto
  qed
qed

text \<open>
  C9. After \<open>closeAll\<close>, from any manager: the list of pairs is empty, \<open>dbcCount\<close> is
  0, no source resolves to a file, every file the list pointed to is deleted, and the call
  has emitted exactly one signal, \<open>DBCFileChanged\<close>, after the loop.
\<close>

theorem closeAll_postcondition:
  "dbc_files (closeAll m) = [] \<and> dbcCount (closeAll m) = 0 \<and>
   (\<forall>src. findDBCFile x (closeAll m) src = None) \<and>
   (\<forall>(ss, p) \<in> set (dbc_files m). heap (closeAll m) p = None) \<and>
   emitted (closeAll m) = emitted m @ [(DBCFileChanged, heap (closeAll m))]"
  by (force simp: closeAll_def emit_def closeAll_loop_files closeAll_loop_keeps closeAll_loop_heap
      dbcCount_def findDBCFile_def)

theorem closeAll_postcondition_witness:
  "dbc_files (closeAll wm) = [] \<and> dbcCount (closeAll wm) = 0 \<and>
   findDBCFile test_externals (closeAll wm) 1 = None \<and>
   heap (closeAll wm) 0 = None \<and> heap (closeAll wm) 1 = None \<and>
   map fst (emitted (closeAll wm)) = [DBCFileChanged]"
proof -
  have "(({}, 0) :: SourceSet \<times> ptr) \<in> set (dbc_files wm)" "(({1}, 1) :: SourceSet \<times> ptr) \<in> set (dbc_files wm)"
    by (simp_all add: wm_def)
  moreover have "emitted wm = []"
    by (simp add: wm_def)
  ultimately show ?thesis
    using closeAll_postcondition [of wm test_externals] by auto
qed

section \<open>Edits and their notifications\<close>

lemma fold_emit:
  "fold (\<lambda>src. emit (g src)) xs m = m\<lparr>emitted := emitted m @ map (\<lambda>src. (g src, heap m)) xs\<rparr>"
  by (induction xs arbitrary: m) (simp_all add: emit_def)

lemma count_list_distinct:
  "distinct xs \<Longrightarrow> count_list xs c = (if c \<in> set xs then 1 else 0)"
  by (induction xs) auto

lemma count_list_map_distinct:
  "inj g \<Longrightarrow> distinct xs \<Longrightarrow> count_list (map g xs) (g c) = (if c \<in> set xs then 1 else 0)"
  by (simp add: count_list_map_conv count_list_distinct)

lemma inj_signalAdded: "inj (\<lambda>src. signalAdded \<lparr>source = src, address = a\<rparr> sp)"
  by (simp add: inj_def)

lemma heap_update_same: "heap m p = Some f \<Longrightarrow> m\<lparr>heap := (heap m)(p := Some f)\<rparr> = m"
  by (simp add: fun_upd_idem)

lemma iter_test_123: "SourceSet_iter test_externals {1, 2, 3} = [1, 2, 3]"
proof -
  have "sorted_list_of_set {1, 2, 3 :: u8} = [1, 2, 3]" by code_simp
  then show ?thesis by (simp add: test_externals_def)
qed

lemma resolve_shared_a:
  "findDBCFile_id test_externals shared_a \<lparr>source = 1, address = 5\<rparr> = Some ({1, 2, 3}, 0)"
  by (simp add: findDBCFile_id_def findDBCFile_def shared_a_def)

lemma resolve_shared_speed:
  "findDBCFile_id test_externals shared_speed \<lparr>source = 1, address = 5\<rparr> = Some ({1, 2, 3}, 0)"
  by (simp add: findDBCFile_id_def findDBCFile_def shared_speed_def)

text \<open>
  C4. \<open>addSignal\<close> on a key whose bus resolves to a file. When the file's
  \<open>addSignal\<close> returns a signal, the manager emits \<open>signalAdded\<close> once for each member
  of the resolved source set and nothing else: as many signals as the set has members,
  each with the key (member, address of the given key) and the same signal pointer, and
  each seen by the observers with the signal already in the file. When the file returns
  \<open>nullptr\<close>, nothing is emitted. The iterator of the source set visits every member
  once.
\<close>

theorem addSignal_fan_out:
  "findDBCFile_id x m msg_id = Some (dbc_sources, dbc_file) \<Longrightarrow> heap m dbc_file = Some f \<Longrightarrow>
   distinct (SourceSet_iter x dbc_sources) \<Longrightarrow> set (SourceSet_iter x dbc_sources) = dbc_sources \<Longrightarrow>
   (\<forall>sp f'. DBCFile_addSignal x f msg_id sig = (Some sp, f') \<longrightarrow>
      (\<exists>m'. addSignal x msg_id sig m = Inr m' \<and>
         heap m' = (heap m)(dbc_file := Some f') \<and>
         emitted m' = emitted m @
           map (\<lambda>src. (signalAdded \<lparr>source = src, address = address msg_id\<rparr> sp, heap m'))
             (SourceSet_iter x dbc_sources) \<and>
         length (emitted m') = length (emitted m) + card dbc_sources \<and>
         (\<forall>src. count_list (map fst (drop (length (emitted m)) (emitted m')))
                  (signalAdded \<lparr>source = src, address = address msg_id\<rparr> sp)
                = (if src \<in> dbc_sources then 1 else 0)))) \<and>
   (\<forall>f'. DBCFile_addSignal x f msg_id sig = (None, f') \<longrightarrow>
      addSignal x msg_id sig m = Inr (m\<lparr>heap := (heap m)(dbc_file := Some f')\<rparr>))"
proof (intro conjI allI impI)
  fix sp f'
  assume res: "findDBCFile_id x m msg_id = Some (dbc_sources, dbc_file)"
    and obj: "heap m dbc_file = Some f"
    and dist: "distinct (SourceSet_iter x dbc_sources)"
    and mem: "set (SourceSet_iter x dbc_sources) = dbc_sources"
    and ok: "DBCFile_addSignal x f msg_id sig = (Some sp, f')"
  let ?h = "(heap m)(dbc_file := Some f')"
  let ?new = "map (\<lambda>src. (signalAdded \<lparr>source = src, address = address msg_id\<rparr> sp, ?h))
             (SourceSet_iter x dbc_sources)"
  let ?m' = "m\<lparr>heap := ?h, emitted := emitted m @ ?new\<rparr>"
  have run: "addSignal x msg_id sig m = Inr ?m'"
    using res obj ok by (simp add: addSignal_def fold_emit)
  have card: "length ?new = card dbc_sources"
    using dist mem by (metis distinct_card length_map)
  have fsts: "map fst ?new
      = map (\<lambda>src. signalAdded \<lparr>source = src, address = address msg_id\<rparr> sp) (SourceSet_iter x dbc_sources)"
    by (simp add: comp_def)
  have cnt: "count_list (map fst ?new) (signalAdded \<lparr>source = src, address = address msg_id\<rparr> sp)
      = (if src \<in> dbc_sources then 1 else 0)" for src
    unfolding fsts using count_list_map_distinct [OF inj_signalAdded dist, of "address msg_id" sp src] mem
    by simp
  show "\<exists>m'. addSignal x msg_id sig m = Inr m' \<and>
         heap m' = (heap m)(dbc_file := Some f') \<and>
         emitted m' = emitted m @
           map (\<lambda>src. (signalAdded \<lparr>source = src, address = address msg_id\<rparr> sp, heap m'))
             (SourceSet_iter x dbc_sources) \<and>
         length (emitted m') = length (emitted m) + card dbc_sources \<and>
         (\<forall>src. count_list (map fst (drop (length (emitted m)) (emitted m')))
                  (signalAdded \<lparr>source = src, address = address msg_id\<rparr> sp)
                = (if src \<in> dbc_sources then 1 else 0))"
  proof (intro exI [of _ ?m'] conjI allI)
    show "addSignal x msg_id sig m = Inr ?m'" by (rule run)
    show "heap ?m' = ?h" by simp
    show "emitted ?m' = emitted m @
           map (\<lambda>src. (signalAdded \<lparr>source = src, address = address msg_id\<rparr> sp, heap ?m'))
             (SourceSet_iter x dbc_sources)" by simp
    show "length (emitted ?m') = length (emitted m) + card dbc_sources"
      using card by simp
    show "count_list (map fst (drop (length (emitted m)) (emitted ?m')))
                  (signalAdded \<lparr>source = src, address = address msg_id\<rparr> sp)
                = (if src \<in> dbc_sources then 1 else 0)" for src
      using cnt [of src] by simp
  qed
next
  fix f'
  assume "findDBCFile_id x m msg_id = Some (dbc_sources, dbc_file)" "heap m dbc_file = Some f"
    "DBCFile_addSignal x f msg_id sig = (None, f')"
  then show "addSignal x msg_id sig m = Inr (m\<lparr>heap := (heap m)(dbc_file := Some f')\<rparr>)"
    by (simp add: addSignal_def)
qed

theorem addSignal_fan_out_witness:
  "\<exists>m'. addSignal test_externals \<lparr>source = 1, address = 5\<rparr> ''speed'' shared_a = Inr m' \<and>
     map fst (emitted m') =
       [signalAdded \<lparr>source = 1, address = 5\<rparr> 0, signalAdded \<lparr>source = 2, address = 5\<rparr> 0,
        signalAdded \<lparr>source = 3, address = 5\<rparr> 0] \<and>
     length (emitted m') = 3"
proof -
  have obj: "heap shared_a 0 = Some a_dbc"
    by (simp add: shared_a_def)
  have it: "distinct (SourceSet_iter test_externals {1, 2, 3})"
    "set (SourceSet_iter test_externals {1, 2, 3}) = {1, 2, 3}"
    by (auto simp: iter_test_123)
  have add: "DBCFile_addSignal test_externals a_dbc \<lparr>source = 1, address = 5\<rparr> ''speed''
      = (Some 0, a_dbc\<lparr>tf_sigs := [(0, 5, ''speed'')], tf_next := 1\<rparr>)"
    by (simp add: test_externals_def tf_addSignal_def a_dbc_def)
  from addSignal_fan_out [OF resolve_shared_a obj it, of "''speed''"] add
  obtain m' where "addSignal test_externals \<lparr>source = 1, address = 5\<rparr> ''speed'' shared_a = Inr m'"
    and "emitted m' = emitted shared_a @
           map (\<lambda>src. (signalAdded \<lparr>source = src, address = address \<lparr>source = 1, address = 5\<rparr>\<rparr> 0, heap m'))
             (SourceSet_iter test_externals {1, 2, 3})"
    by blast
  then show ?thesis
    by (simp add: iter_test_123 shared_a_def)
qed

text \<open>
  C5. \<open>updateSignal\<close> on a key whose bus resolves to a file: when the file's
  \<open>updateSignal\<close> returns a signal, the manager emits exactly one signal,
  \<open>signalUpdated\<close> with that pointer, whatever the resolved source set is.
\<close>

theorem updateSignal_single:
  "findDBCFile_id x m msg_id = Some (dbc_sources, dbc_file) \<Longrightarrow> heap m dbc_file = Some f \<Longrightarrow>
   DBCFile_updateSignal x f msg_id sig_name sig = (Some sp, f') \<Longrightarrow>
   updateSignal x msg_id sig_name sig m =
     Inr (m\<lparr>heap := (heap m)(dbc_file := Some f'),
            emitted := emitted m @ [(signalUpdated sp, (heap m)(dbc_file := Some f'))]\<rparr>)"
  by (simp add: updateSignal_def emit_def)

theorem updateSignal_single_witness:
  "\<exists>m'. updateSignal test_externals \<lparr>source = 1, address = 5\<rparr> ''speed'' ''velocity'' shared_speed = Inr m' \<and>
     map fst (emitted m') = [signalUpdated 0] \<and>
     findDBCFile_id test_externals shared_speed \<lparr>source = 1, address = 5\<rparr> = Some ({1, 2, 3}, 0)"
proof -
  have obj: "heap shared_speed 0 = Some a_dbc_speed"
    by (simp add: shared_speed_def)
  have upd: "DBCFile_updateSignal test_externals a_dbc_speed \<lparr>source = 1, address = 5\<rparr> ''speed'' ''velocity''
      = (Some 0, a_dbc_speed\<lparr>tf_sigs := [(0, 5, ''velocity'')]\<rparr>)"
    by (simp add: test_externals_def tf_updateSignal_def a_dbc_speed_def)
  have log: "emitted shared_speed = []"
    by (simp add: shared_speed_def)
  show ?thesis
    using updateSignal_single [OF resolve_shared_speed obj upd] resolve_shared_speed log
    by simp
qed

text \<open>
  C6. \<open>removeSignal\<close> on a key whose bus resolves to a file. When the file has the
  named signal, the manager emits one \<open>signalRemoved\<close> with its pointer, and the
  observers see the store as it was before the call, where the file still has the signal;
  the file's \<open>removeSignal\<close> runs after that. When the file does not have the signal,
  the manager is unchanged: no signal is emitted and the file's \<open>removeSignal\<close> is not
  called.
\<close>

theorem removeSignal_notify_then_remove:
  "findDBCFile_id x m msg_id = Some (dbc_sources, dbc_file) \<Longrightarrow> heap m dbc_file = Some f \<Longrightarrow>
   (\<forall>sp. DBCFile_getSignal x f msg_id sig_name = Some sp \<longrightarrow>
      (\<exists>m' seen. removeSignal x msg_id sig_name m = Inr m' \<and>
         emitted m' = emitted m @ [(signalRemoved sp, seen)] \<and>
         seen = heap m \<and> seen dbc_file = Some f \<and>
         heap m' = (heap m)(dbc_file := Some (DBCFile_removeSignal x f msg_id sig_name)))) \<and>
   (DBCFile_getSignal x f msg_id sig_name = None \<longrightarrow> removeSignal x msg_id sig_name m = Inr m)"
  by (simp add: removeSignal_def emit_def)

theorem removeSignal_notify_then_remove_witness:
  "\<exists>m' seen. removeSignal test_externals \<lparr>source = 1, address = 5\<rparr> ''speed'' shared_speed = Inr m' \<and>
     emitted m' = [(signalRemoved 0, seen)] \<and>
     map_option (\<lambda>f. DBCFile_getSignal test_externals f \<lparr>source = 1, address = 5\<rparr> ''speed'') (seen 0)
       = Some (Some 0) \<and>
     map_option (\<lambda>f. DBCFile_getSignal test_externals f \<lparr>source = 1, address = 5\<rparr> ''speed'') (heap m' 0)
       = Some None \<and>
     removeSignal test_externals \<lparr>source = 1, address = 5\<rparr> ''speed'' shared_a = Inr shared_a"
proof -
  have obj: "heap shared_speed 0 = Some a_dbc_speed"
    by (simp add: shared_speed_def)
  have get: "DBCFile_getSignal test_externals a_dbc_speed \<lparr>source = 1, address = 5\<rparr> ''speed'' = Some 0"
    by (simp add: test_externals_def tf_getSignal_def a_dbc_speed_def)
  have rem: "DBCFile_getSignal test_externals
      (DBCFile_removeSignal test_externals a_dbc_speed \<lparr>source = 1, address = 5\<rparr> ''speed'')
      \<lparr>source = 1, address = 5\<rparr> ''speed'' = None"
    by (simp add: test_externals_def tf_getSignal_def tf_removeSignal_def a_dbc_speed_def)
  have obj_a: "heap shared_a 0 = Some a_dbc"
    by (simp add: shared_a_def)
  have absent: "DBCFile_getSignal test_externals a_dbc \<lparr>source = 1, address = 5\<rparr> ''speed'' = None"
    by (simp add: test_externals_def tf_getSignal_def a_dbc_def)
  from removeSignal_notify_then_remove [OF resolve_shared_speed obj, of "''speed''"] get
  obtain m' seen where
    "removeSignal test_externals \<lparr>source = 1, address = 5\<rparr> ''speed'' shared_speed = Inr m'"
    "emitted m' = emitted shared_speed @ [(signalRemoved 0, seen)]"
    "seen 0 = Some a_dbc_speed"
    "heap m' = (heap shared_speed)(0 := Some (DBCFile_removeSignal test_externals a_dbc_speed
        \<lparr>source = 1, address = 5\<rparr> ''speed''))"
    by blast
  moreover from removeSignal_notify_then_remove [OF resolve_shared_a obj_a, of "''speed''"] absent
  have "removeSignal test_externals \<lparr>source = 1, address = 5\<rparr> ''speed'' shared_a = Inr shared_a"
    by blast
  ultimately show ?thesis
    using get rem by (simp add: shared_speed_def)
qed

text \<open>
  C7, as stated, fails for \<open>removeMsg\<close>: the file has no message 5 and is unchanged by
  its \<open>removeMsg\<close>, and the manager still emits \<open>msgRemoved\<close> for the buses 1, 2, 3.
\<close>

theorem removeMsg_emits_when_rejected:
  "DBCFile_msg test_externals a_dbc \<lparr>source = 1, address = 5\<rparr> = None \<and>
   DBCFile_removeMsg test_externals a_dbc \<lparr>source = 1, address = 5\<rparr> = a_dbc \<and>
   removeMsg test_externals \<lparr>source = 1, address = 5\<rparr> shared_a =
     Inr (shared_a\<lparr>emitted :=
       [(msgRemoved \<lparr>source = 1, address = 5\<rparr>, heap shared_a),
        (msgRemoved \<lparr>source = 2, address = 5\<rparr>, heap shared_a),
        (msgRemoved \<lparr>source = 3, address = 5\<rparr>, heap shared_a)]\<rparr>)"
proof -
  have gone: "DBCFile_msg test_externals a_dbc \<lparr>source = 1, address = 5\<rparr> = None"
    and same: "DBCFile_removeMsg test_externals a_dbc \<lparr>source = 1, address = 5\<rparr> = a_dbc"
    by (simp_all add: test_externals_def tf_msg_def tf_removeMsg_def a_dbc_def)
  have obj: "heap shared_a 0 = Some a_dbc"
    by (simp add: shared_a_def)
  have "removeMsg test_externals \<lparr>source = 1, address = 5\<rparr> shared_a =
     Inr (shared_a\<lparr>emitted :=
       [(msgRemoved \<lparr>source = 1, address = 5\<rparr>, heap shared_a),
        (msgRemoved \<lparr>source = 2, address = 5\<rparr>, heap shared_a),
        (msgRemoved \<lparr>source = 3, address = 5\<rparr>, heap shared_a)]\<rparr>)"
    by (simp add: removeMsg_def resolve_shared_a obj same fold_emit iter_test_123 heap_update_same)
      (simp add: shared_a_def emit_def)
  with gone same show ?thesis by simp
qed

text \<open>
  C7, amended. On a key whose bus resolves to a file: when the file's \<open>addSignal\<close> or
  \<open>updateSignal\<close> returns \<open>nullptr\<close>, the manager emits nothing and only the file object
  is what the file's function left (the manager is unchanged when the file is);
  when the file has no signal of the name, \<open>removeSignal\<close> leaves the manager unchanged.
  \<open>updateMsg\<close> and \<open>removeMsg\<close> take no result from the file: they call it and emit
  their signal once for each member of the resolved source set, in every case.
\<close>

theorem rejected_edit:
  "findDBCFile_id x m msg_id = Some (dbc_sources, dbc_file) \<Longrightarrow> heap m dbc_file = Some f \<Longrightarrow>
   (\<forall>f'. DBCFile_addSignal x f msg_id sig = (None, f') \<longrightarrow>
      addSignal x msg_id sig m = Inr (m\<lparr>heap := (heap m)(dbc_file := Some f')\<rparr>)) \<and>
   (DBCFile_addSignal x f msg_id sig = (None, f) \<longrightarrow> addSignal x msg_id sig m = Inr m) \<and>
   (\<forall>f'. DBCFile_updateSignal x f msg_id sig_name sig = (None, f') \<longrightarrow>
      updateSignal x msg_id sig_name sig m = Inr (m\<lparr>heap := (heap m)(dbc_file := Some f')\<rparr>)) \<and>
   (DBCFile_updateSignal x f msg_id sig_name sig = (None, f) \<longrightarrow>
      updateSignal x msg_id sig_name sig m = Inr m) \<and>
   (DBCFile_getSignal x f msg_id sig_name = None \<longrightarrow> removeSignal x msg_id sig_name m = Inr m) \<and>
   updateMsg x msg_id name sz m =
     Inr (m\<lparr>heap := (heap m)(dbc_file := Some (DBCFile_updateMsg x f msg_id name sz)),
            emitted := emitted m @
              map (\<lambda>src. (msgUpdated \<lparr>source = src, address = address msg_id\<rparr>,
                          (heap m)(dbc_file := Some (DBCFile_updateMsg x f msg_id name sz))))
                (SourceSet_iter x dbc_sources)\<rparr>) \<and>
   removeMsg x msg_id m =
     Inr (m\<lparr>heap := (heap m)(dbc_file := Some (DBCFile_removeMsg x f msg_id)),
            emitted := emitted m @
              map (\<lambda>src. (msgRemoved \<lparr>source = src, address = address msg_id\<rparr>,
                          (heap m)(dbc_file := Some (DBCFile_removeMsg x f msg_id))))
                (SourceSet_iter x dbc_sources)\<rparr>)"
proof -
  assume res: "findDBCFile_id x m msg_id = Some (dbc_sources, dbc_file)"
    and obj: "heap m dbc_file = Some f"
  have add: "addSignal x msg_id sig m = Inr (m\<lparr>heap := (heap m)(dbc_file := Some f')\<rparr>)"
    if "DBCFile_addSignal x f msg_id sig = (None, f')" for f'
    using res obj that by (simp add: addSignal_def)
  have upd: "updateSignal x msg_id sig_name sig m = Inr (m\<lparr>heap := (heap m)(dbc_file := Some f')\<rparr>)"
    if "DBCFile_updateSignal x f msg_id sig_name sig = (None, f')" for f'
    using res obj that by (simp add: updateSignal_def)
  have rem: "removeSignal x msg_id sig_name m = Inr m"
    if "DBCFile_getSignal x f msg_id sig_name = None"
    using res obj that by (simp add: removeSignal_def)
  have umsg: "updateMsg x msg_id name sz m =
     Inr (m\<lparr>heap := (heap m)(dbc_file := Some (DBCFile_updateMsg x f msg_id name sz)),
            emitted := emitted m @
              map (\<lambda>src. (msgUpdated \<lparr>source = src, address = address msg_id\<rparr>,
                          (heap m)(dbc_file := Some (DBCFile_updateMsg x f msg_id name sz))))
                (SourceSet_iter x dbc_sources)\<rparr>)"
    using res obj by (simp add: updateMsg_def fold_emit)
  have rmsg: "removeMsg x msg_id m =
     Inr (m\<lparr>heap := (heap m)(dbc_file := Some (DBCFile_removeMsg x f msg_id)),
            emitted := emitted m @
              map (\<lambda>src. (msgRemoved \<lparr>source = src, address = address msg_id\<rparr>,
                          (heap m)(dbc_file := Some (DBCFile_removeMsg x f msg_id))))
                (SourceSet_iter x dbc_sources)\<rparr>)"
    using res obj by (simp add: removeMsg_def fold_emit)
  from add upd rem umsg rmsg heap_update_same [OF obj] show ?thesis
    by (metis (no_types, lifting))
qed

theorem rejected_edit_witness:
  "addSignal test_externals \<lparr>source = 1, address = 5\<rparr> ''speed'' shared_speed = Inr shared_speed \<and>
   updateSignal test_externals \<lparr>source = 1, address = 5\<rparr> ''rpm'' ''velocity'' shared_speed
     = Inr shared_speed \<and>
   removeSignal test_externals \<lparr>source = 1, address = 5\<rparr> ''rpm'' shared_speed = Inr shared_speed \<and>
   (\<exists>m'. removeMsg test_externals \<lparr>source = 1, address = 5\<rparr> shared_speed = Inr m' \<and>
      map fst (emitted m') =
        [msgRemoved \<lparr>source = 1, address = 5\<rparr>, msgRemoved \<lparr>source = 2, address = 5\<rparr>,
         msgRemoved \<lparr>source = 3, address = 5\<rparr>])"
proof -
  have obj: "heap shared_speed 0 = Some a_dbc_speed"
    by (simp add: shared_speed_def)
  have add: "DBCFile_addSignal test_externals a_dbc_speed \<lparr>source = 1, address = 5\<rparr> ''speed''
      = (None, a_dbc_speed)"
    and upd: "DBCFile_updateSignal test_externals a_dbc_speed \<lparr>source = 1, address = 5\<rparr> ''rpm'' ''velocity''
      = (None, a_dbc_speed)"
    and get: "DBCFile_getSignal test_externals a_dbc_speed \<lparr>source = 1, address = 5\<rparr> ''rpm'' = None"
    by (simp_all add: test_externals_def tf_addSignal_def tf_updateSignal_def tf_getSignal_def
        a_dbc_speed_def)
  note r = rejected_edit [OF resolve_shared_speed obj]
  from r [where sig = "''speed''"] add
  have 1: "addSignal test_externals \<lparr>source = 1, address = 5\<rparr> ''speed'' shared_speed = Inr shared_speed"
    by blast
  from r [where sig = "''velocity''" and sig_name = "''rpm''"] upd
  have 2: "updateSignal test_externals \<lparr>source = 1, address = 5\<rparr> ''rpm'' ''velocity'' shared_speed
     = Inr shared_speed"
    by blast
  from r [where sig_name = "''rpm''"] get
  have 3: "removeSignal test_externals \<lparr>source = 1, address = 5\<rparr> ''rpm'' shared_speed = Inr shared_speed"
    by blast
  have log: "emitted shared_speed = []"
    by (simp add: shared_speed_def)
  from r have "removeMsg test_externals \<lparr>source = 1, address = 5\<rparr> shared_speed =
     Inr (shared_speed\<lparr>heap := (heap shared_speed)(0 := Some (DBCFile_removeMsg test_externals a_dbc_speed \<lparr>source = 1, address = 5\<rparr>)),
            emitted := emitted shared_speed @
              map (\<lambda>src. (msgRemoved \<lparr>source = src, address = address \<lparr>source = 1, address = 5\<rparr>\<rparr>,
                          (heap shared_speed)(0 := Some (DBCFile_removeMsg test_externals a_dbc_speed \<lparr>source = 1, address = 5\<rparr>))))
                (SourceSet_iter test_externals {1, 2, 3})\<rparr>)"
    by blast
  then have 4: "\<exists>m'. removeMsg test_externals \<lparr>source = 1, address = 5\<rparr> shared_speed = Inr m' \<and>
      map fst (emitted m') =
        [msgRemoved \<lparr>source = 1, address = 5\<rparr>, msgRemoved \<lparr>source = 2, address = 5\<rparr>,
         msgRemoved \<lparr>source = 3, address = 5\<rparr>]"
    by (simp add: iter_test_123 log)
  from 1 2 3 4 show ?thesis by blast
qed

section \<open>Queries\<close>

lemma MessageId_eq: "(k = \<lparr>source = s, address = a\<rparr>) = (source k = s \<and> address k = a)"
  by (cases k) simp

lemma fold_rekey:
  "fold (\<lambda>(addr, msg) ret. ret(\<lparr>source = src, address = addr\<rparr> := Some msg)) l r k =
     (if source k = src
      then (case map_of (rev l) (address k) of Some v \<Rightarrow> Some v | None \<Rightarrow> r k)
      else r k)"
proof (induction l arbitrary: r)
  case Nil
  then show ?case by simp
next
  case (Cons e l)
  obtain a v where e: "e = (a, v)" by (cases e)
  let ?F = "\<lambda>(addr, msg) ret. ret(\<lparr>source = src, address = addr\<rparr> := Some msg)"
  let ?r = "r(\<lparr>source = src, address = a\<rparr> := Some v)"
  have "fold ?F (e # l) r k = fold ?F l ?r k"
    by (simp add: e)
  also have "\<dots> = (if source k = src
      then (case map_of (rev l) (address k) of Some v \<Rightarrow> Some v | None \<Rightarrow> ?r k)
      else ?r k)"
    by (rule Cons.IH)
  also have "\<dots> = (if source k = src
      then (case map_of (rev (e # l)) (address k) of Some v \<Rightarrow> Some v | None \<Rightarrow> r k)
      else r k)"
    by (simp add: e MessageId_eq map_add_def split: option.splits)
  finally show ?case .
qed

lemma map_of_rev_distinct:
  "distinct (map fst l) \<Longrightarrow> map_of (rev l) = map_of l"
  by (rule map_of_inject_set [THEN iffD2]) (simp_all add: distinct_rev rev_map [symmetric])

text \<open>
  C8. \<open>getMessages(source)\<close>: when the bus does not resolve to a file, the result is the
  empty map, not an error. When it resolves, the result has an entry exactly for the keys
  (source, address) with address a message address of the file, and the entry is the
  file's message for that address (the last one, should the file list an address twice).
\<close>

theorem getMessages_rekeyed:
  "(findDBCFile x m src = None \<longrightarrow> getMessages x m src = Inr (\<lambda>_. None)) \<and>
   (\<forall>S p f. findDBCFile x m src = Some (S, p) \<longrightarrow> heap m p = Some f \<longrightarrow>
      (\<exists>ret. getMessages x m src = Inr ret \<and>
         (\<forall>k. ret k = (if source k = src then map_of (rev (DBCFile_getMessages x f)) (address k)
                         else None)) \<and>
         (distinct (map fst (DBCFile_getMessages x f)) \<longrightarrow>
            (\<forall>a v. (ret \<lparr>source = src, address = a\<rparr> = Some v)
                     = ((a, v) \<in> set (DBCFile_getMessages x f))))))"
proof (intro conjI allI impI)
  assume "findDBCFile x m src = None"
  then show "getMessages x m src = Inr (\<lambda>_. None)"
    by (simp add: getMessages_def findDBCFile_id_def)
next
  fix S p f
  assume res: "findDBCFile x m src = Some (S, p)" and obj: "heap m p = Some f"
  let ?l = "DBCFile_getMessages x f"
  let ?ret = "fold (\<lambda>(addr, msg) ret. ret(\<lparr>source = src, address = addr\<rparr> := Some msg)) ?l (\<lambda>_. None)"
  have run: "getMessages x m src = Inr ?ret"
    using res obj by (simp add: getMessages_def findDBCFile_id_def)
  have val: "?ret k = (if source k = src then map_of (rev ?l) (address k) else None)" for k
    by (simp add: fold_rekey split: option.splits)
  have "(?ret \<lparr>source = src, address = a\<rparr> = Some v) = ((a, v) \<in> set ?l)"
    if "distinct (map fst ?l)" for a v
    using that by (simp add: val map_of_rev_distinct)
  with run val
  show "\<exists>ret. getMessages x m src = Inr ret \<and>
         (\<forall>k. ret k = (if source k = src then map_of (rev (DBCFile_getMessages x f)) (address k)
                         else None)) \<and>
         (distinct (map fst (DBCFile_getMessages x f)) \<longrightarrow>
            (\<forall>a v. (ret \<lparr>source = src, address = a\<rparr> = Some v)
                     = ((a, v) \<in> set (DBCFile_getMessages x f))))"
    by blast
qed

theorem getMessages_rekeyed_witness:
  "getMessages test_externals shared_msgs 9 = Inr (\<lambda>_. None) \<and>
   (\<exists>ret. getMessages test_externals shared_msgs 2 = Inr ret \<and>
      ret \<lparr>source = 2, address = 5\<rparr> = Some (''GAS'', 8) \<and>
      ret \<lparr>source = 2, address = 6\<rparr> = Some (''BRAKE'', 4) \<and>
      ret \<lparr>source = 2, address = 7\<rparr> = None \<and>
      ret \<lparr>source = 1, address = 5\<rparr> = None)"
proof -
  have none: "findDBCFile test_externals shared_msgs 9 = None"
    and some: "findDBCFile test_externals shared_msgs 2 = Some ({1, 2, 3}, 0)"
    and obj: "heap shared_msgs 0 = Some a_dbc_msgs"
    by (simp_all add: findDBCFile_def shared_msgs_def test_externals_def)
  have msgs: "DBCFile_getMessages test_externals a_dbc_msgs = [(5, ''GAS'', 8), (6, ''BRAKE'', 4)]"
    by (simp add: test_externals_def a_dbc_msgs_def)
  from getMessages_rekeyed [of test_externals shared_msgs 9] none
  have 1: "getMessages test_externals shared_msgs 9 = Inr (\<lambda>_. None)"
    by blast
  from getMessages_rekeyed [of test_externals shared_msgs 2] some obj
  obtain ret where "getMessages test_externals shared_msgs 2 = Inr ret"
    and "\<forall>k. ret k = (if source k = 2
          then map_of (rev (DBCFile_getMessages test_externals a_dbc_msgs)) (address k) else None)"
    by blast
  then have "getMessages test_externals shared_msgs 2 = Inr ret \<and>
      ret \<lparr>source = 2, address = 5\<rparr> = Some (''GAS'', 8) \<and>
      ret \<lparr>source = 2, address = 6\<rparr> = Some (''BRAKE'', 4) \<and>
      ret \<lparr>source = 2, address = 7\<rparr> = None \<and>
      ret \<lparr>source = 1, address = 5\<rparr> = None"
    by (simp add: msgs)
  with 1 show ?thesis by blast
qed

text \<open>
  C10. \<open>findDBCFile\<close> on a key uses the key's bus only: two keys with the same bus
  resolve to the same pair, so resolving with address 0 gives what any address gives.
  \<open>msg(id)\<close>, \<open>msg(source, name)\<close> and \<open>getMessages(source)\<close> consult the file that
  the bus alone resolves to.
\<close>

theorem resolution_ignores_address:
  "(source id1 = source id2 \<longrightarrow> findDBCFile_id x m id1 = findDBCFile_id x m id2) \<and>
   findDBCFile_id x m \<lparr>source = src, address = a\<rparr> = findDBCFile_id x m \<lparr>source = src, address = 0\<rparr> \<and>
   findDBCFile_id x m \<lparr>source = src, address = a\<rparr> = findDBCFile x m src \<and>
   msg x m id1 =
     (case findDBCFile x m (source id1) of
        None \<Rightarrow> Inr None
      | Some (S, p) \<Rightarrow>
          (case heap m p of None \<Rightarrow> Inl InvalidPointer | Some f \<Rightarrow> Inr (DBCFile_msg x f id1))) \<and>
   msg_name x m src name =
     (case findDBCFile x m src of
        None \<Rightarrow> Inr None
      | Some (S, p) \<Rightarrow>
          (case heap m p of None \<Rightarrow> Inl InvalidPointer | Some f \<Rightarrow> Inr (DBCFile_msg_name x f name))) \<and>
   getMessages x m src =
     (case findDBCFile x m src of
        None \<Rightarrow> Inr (\<lambda>_. None)
      | Some (S, p) \<Rightarrow>
          (case heap m p of
             None \<Rightarrow> Inl InvalidPointer
           | Some f \<Rightarrow>
               Inr (fold (\<lambda>(addr, msg) ret. ret(\<lparr>source = src, address = addr\<rparr> := Some msg))
                      (DBCFile_getMessages x f) (\<lambda>_. None))))"
  by (simp add: findDBCFile_id_def msg_def msg_name_def getMessages_def Let_def)

theorem resolution_ignores_address_witness:
  "findDBCFile_id test_externals wm \<lparr>source = 1, address = 5\<rparr> = Some ({1}, 1) \<and>
   findDBCFile_id test_externals wm \<lparr>source = 1, address = 77\<rparr> = Some ({1}, 1)"
proof -
  have "source \<lparr>source = 1, address = 5\<rparr> = source \<lparr>source = 1, address = 77\<rparr>"
    by simp
  with resolution_ignores_address [of "\<lparr>source = 1, address = 5\<rparr>" "\<lparr>source = 1, address = 77\<rparr>" test_externals wm]
  have "findDBCFile_id test_externals wm \<lparr>source = 1, address = 5\<rparr>
      = findDBCFile_id test_externals wm \<lparr>source = 1, address = 77\<rparr>"
    by blast
  moreover have "findDBCFile_id test_externals wm \<lparr>source = 1, address = 77\<rparr> = Some ({1}, 1)"
    by (simp add: findDBCFile_id_def findDBCFile_def wm_def)
  ultimately show ?thesis by simp
qed

section \<open>Every pair owns a live file\<close>

lemma valid_init: "valid init_manager"
  by (simp add: valid_def init_manager_def)

lemma valid_emit: "valid (emit n m) = valid m"
  by (simp add: valid_def emit_def)

lemma valid_fold_emit: "valid (fold (\<lambda>src. emit (g src)) xs m) = valid m"
  by (simp add: fold_emit valid_def)

lemma find_containing_mem: "find_containing src fs = Some r \<Longrightarrow> r \<in> set fs"
  by (induction src fs rule: find_containing.induct) (auto split: if_splits)

lemma find_all_mem: "find_all all srcs fs = Some (S, p) \<Longrightarrow> p \<in> snd ` set fs"
  by (induction all srcs fs rule: find_all.induct) (auto split: if_splits)

lemma findDBCFile_ptr:
  "findDBCFile x m src = Some (S, p) \<Longrightarrow> p \<in> snd ` set (dbc_files m)"
  by (auto simp: findDBCFile_def split: option.splits dest: find_containing_mem find_all_mem
      intro: rev_image_eqI)

lemma valid_resolved_live:
  "valid m \<Longrightarrow> findDBCFile x m src = Some (S, p) \<Longrightarrow> \<exists>f. heap m p = Some f"
  by (drule findDBCFile_ptr) (auto simp: valid_def)

lemma valid_update_obj:
  "valid m \<Longrightarrow> valid (m\<lparr>heap := (heap m)(p := Some f)\<rparr>)"
  by (auto simp: valid_def)

lemma valid_fresh: "valid m \<Longrightarrow> next_ptr m \<notin> snd ` set (dbc_files m)"
  by (fastforce simp: valid_def)

lemma valid_append:
  assumes v: "valid m"
  shows "valid (case new_DBCFile d m of (p, m1) \<Rightarrow> m1\<lparr>dbc_files := dbc_files m1 @ [(s, p)]\<rparr>)"
proof -
  let ?n = "next_ptr m"
  let ?m' = "m\<lparr>heap := (heap m)(?n := Some d), next_ptr := Suc ?n, dbc_files := dbc_files m @ [(s, ?n)]\<rparr>"
  have "distinct (map snd (dbc_files ?m'))"
    using v valid_fresh [OF v] by (simp add: valid_def)
  moreover have "p < next_ptr ?m' \<and> heap ?m' p \<noteq> None" if "(ss, p) \<in> set (dbc_files ?m')" for ss p
  proof (cases "p = ?n")
    case True
    then show ?thesis by simp
  next
    case False
    with that have "(ss, p) \<in> set (dbc_files m)" by simp
    with v have "p < ?n \<and> heap m p \<noteq> None" by (auto simp: valid_def)
    with False show ?thesis by simp
  qed
  ultimately have "valid ?m'"
    unfolding valid_def by blast
  moreover have "(case new_DBCFile d m of (p, m1) \<Rightarrow> m1\<lparr>dbc_files := dbc_files m1 @ [(s, p)]\<rparr>) = ?m'"
    by (simp add: new_DBCFile_def)
  ultimately show ?thesis
    by (simp only:)
qed

lemma valid_replace:
  assumes v: "valid m" and i: "i < length (dbc_files m)" and old: "dbc_files m ! i = (ss, q)"
  shows "valid (case new_DBCFile d m of (p, m1) \<Rightarrow>
                  delete_DBCFile q (m1\<lparr>dbc_files := (dbc_files m1)[i := (s, p)]\<rparr>))"
proof -
  let ?fs = "dbc_files m"
  let ?n = "next_ptr m"
  let ?m' = "m\<lparr>heap := (heap m)(?n := Some d, q := None), next_ptr := Suc ?n,
      dbc_files := ?fs[i := (s, ?n)]\<rparr>"
  have dist: "distinct (map snd ?fs)"
    using v by (simp add: valid_def)
  have fresh: "?n \<notin> snd ` set ?fs"
    by (rule valid_fresh [OF v])
  have "map snd (?fs[i := (s, ?n)]) = (map snd ?fs)[i := ?n]"
    by (simp add: map_update)
  with dist fresh i have d': "distinct (map snd (dbc_files ?m'))"
    by (simp add: distinct_list_update)
  have q: "q < ?n"
    using v i old nth_mem [OF i] by (auto simp: valid_def)
  have ok: "p < next_ptr ?m' \<and> heap ?m' p \<noteq> None" if "(t, p) \<in> set (dbc_files ?m')" for t p
  proof -
    from that obtain j where j: "j < length ?fs" "(?fs[i := (s, ?n)]) ! j = (t, p)"
      by (auto simp: in_set_conv_nth)
    show ?thesis
    proof (cases "j = i")
      case True
      with j have "p = ?n" by simp
      with q show ?thesis by simp
    next
      case False
      with j have at: "?fs ! j = (t, p)" by simp
      with j have "(t, p) \<in> set ?fs" by (metis nth_mem)
      with v have live: "p < ?n \<and> heap m p \<noteq> None" by (auto simp: valid_def)
      have "map snd ?fs ! j \<noteq> map snd ?fs ! i"
        using dist False j i by (simp add: nth_eq_iff_index_eq del: nth_map)
      with at old j i have "p \<noteq> q" by simp
      with live show ?thesis by simp
    qed
  qed
  from d' ok have "valid ?m'"
    unfolding valid_def by blast
  moreover have "(case new_DBCFile d m of (p, m1) \<Rightarrow>
      delete_DBCFile q (m1\<lparr>dbc_files := (dbc_files m1)[i := (s, p)]\<rparr>)) = ?m'"
    by (simp add: new_DBCFile_def delete_DBCFile_def)
  ultimately show ?thesis
    by (simp only:)
qed

lemma open_loop_valid:
  "valid m \<Longrightarrow> open_loop x s n e m i = Some r \<Longrightarrow> \<exists>ok e' m'. r = Inr (ok, e', m') \<and> valid m'"
proof (induction x s n e m i arbitrary: r rule: open_loop.induct)
  case (1 x s n e m i)
  from "1.prems"(2) have i: "i < length (dbc_files m)"
    by (subst (asm) open_loop.simps) (simp split: if_splits)
  obtain ss q where at: "dbc_files m ! i = (ss, q)" by (cases "dbc_files m ! i")
  with i have "(ss, q) \<in> set (dbc_files m)" by (metis nth_mem)
  with "1.prems"(1) obtain f where f: "heap m q = Some f" by (auto simp: valid_def)
  show ?case
  proof (cases "DBCFile_filename x f = n")
    case True
    with "1.prems"(2) i at f have "r = Inr (True, e, emit DBCFileChanged m)"
      by (subst (asm) open_loop.simps) simp
    with "1.prems"(1) show ?thesis by (auto simp: valid_emit)
  next
    case diff: False
    show ?thesis
    proof (cases "ss = s")
      case False
      with diff "1.prems"(2) i at f have "open_loop x s n e m (Suc i) = Some r"
        by (subst (asm) open_loop.simps) simp
      with "1.IH" [of ss q f r] i at f diff False "1.prems"(1) show ?thesis by simp
    next
      case True
      show ?thesis
      proof (cases "DBCFile_new x n")
        case (Inl what)
        with True diff "1.prems"(2) i at f have "r = Inr (False, set_error e what, m)"
          by (subst (asm) open_loop.simps) simp
        with "1.prems"(1) show ?thesis by auto
      next
        case (Inr d)
        let ?m' = "case new_DBCFile d m of (p, m1) \<Rightarrow>
                  delete_DBCFile q (m1\<lparr>dbc_files := (dbc_files m1)[i := (s, p)]\<rparr>)"
        from Inr True diff "1.prems"(2) i at f have "r = Inr (True, e, emit DBCFileChanged ?m')"
          by (subst (asm) open_loop.simps) (simp add: split_beta Let_def)
        moreover have "valid ?m'"
          by (rule valid_replace [OF "1.prems"(1) i at])
        ultimately show ?thesis by (auto simp: valid_emit)
      qed
    qed
  qed
qed

lemma open_file_valid:
  assumes v: "valid m"
  shows "\<exists>ok e' m'. open_file x s n e m = Inr (ok, e', m') \<and> valid m'"
proof (cases "open_loop x s n e m 0")
  case (Some r)
  with open_loop_valid [OF v Some] show ?thesis
    by (simp add: open_file_def)
next
  case None
  show ?thesis
  proof (cases "DBCFile_new x n")
    case (Inl what)
    with None v show ?thesis by (auto simp: open_file_def)
  next
    case (Inr d)
    with None valid_append [OF v, where d = d and s = s] show ?thesis
      by (auto simp: open_file_def split_beta valid_emit)
  qed
qed

lemma open_content_valid:
  "valid m \<Longrightarrow> valid (snd (snd (open_content x s name content e m)))"
  using valid_append [where m = m and s = s]
  by (simp add: open_content_def split_beta valid_emit split: sum.splits)

lemma closeAll_valid: "valid (closeAll m)"
  by (simp add: valid_def closeAll_def emit_def closeAll_loop_files)

lemma updateSources_valid: "valid (updateSources s m) = valid m"
  by (simp add: valid_def updateSources_def)

lemma valid_resolved_id:
  "valid m \<Longrightarrow> findDBCFile_id x m msg_id = Some (S, p) \<Longrightarrow> \<exists>f. heap m p = Some f"
  unfolding findDBCFile_id_def by (rule valid_resolved_live)

lemma addSignal_valid:
  assumes v: "valid m"
  shows "(findDBCFile_id x m msg_id = None \<and> addSignal x msg_id sig m = Inl AssertionFailed) \<or>
         (\<exists>m'. addSignal x msg_id sig m = Inr m' \<and> valid m')"
proof (cases "findDBCFile_id x m msg_id")
  case None
  then show ?thesis by (simp add: addSignal_def)
next
  case (Some r)
  obtain S p where r: "r = (S, p)" by (cases r)
  from valid_resolved_id [OF v Some [unfolded r]] obtain f where f: "heap m p = Some f" ..
  show ?thesis
    using Some r f valid_update_obj [OF v, of p]
    by (auto simp: addSignal_def split_beta Let_def valid_fold_emit split: option.splits)
qed

lemma updateSignal_valid:
  assumes v: "valid m"
  shows "(findDBCFile_id x m msg_id = None \<and> updateSignal x msg_id sig_name sig m = Inl AssertionFailed) \<or>
         (\<exists>m'. updateSignal x msg_id sig_name sig m = Inr m' \<and> valid m')"
proof (cases "findDBCFile_id x m msg_id")
  case None
  then show ?thesis by (simp add: updateSignal_def)
next
  case (Some r)
  obtain S p where r: "r = (S, p)" by (cases r)
  from valid_resolved_id [OF v Some [unfolded r]] obtain f where f: "heap m p = Some f" ..
  show ?thesis
    using Some r f valid_update_obj [OF v, of p]
    by (auto simp: updateSignal_def split_beta Let_def valid_emit split: option.splits)
qed

lemma removeSignal_valid:
  assumes v: "valid m"
  shows "(findDBCFile_id x m msg_id = None \<and> removeSignal x msg_id sig_name m = Inl AssertionFailed) \<or>
         (\<exists>m'. removeSignal x msg_id sig_name m = Inr m' \<and> valid m')"
proof (cases "findDBCFile_id x m msg_id")
  case None
  then show ?thesis by (simp add: removeSignal_def)
next
  case (Some r)
  obtain S p where r: "r = (S, p)" by (cases r)
  from valid_resolved_id [OF v Some [unfolded r]] obtain f where f: "heap m p = Some f" ..
  have "valid ((emit n m)\<lparr>heap := (heap (emit n m))(p := Some g)\<rparr>)" for n g
    using v by (intro valid_update_obj) (simp add: valid_emit)
  then show ?thesis
    using Some r f v
    by (simp add: removeSignal_def Let_def split: option.splits)
qed

lemma updateMsg_valid:
  assumes v: "valid m"
  shows "(findDBCFile_id x m msg_id = None \<and> updateMsg x msg_id name sz m = Inl AssertionFailed) \<or>
         (\<exists>m'. updateMsg x msg_id name sz m = Inr m' \<and> valid m')"
proof (cases "findDBCFile_id x m msg_id")
  case None
  then show ?thesis by (simp add: updateMsg_def)
next
  case (Some r)
  obtain S p where r: "r = (S, p)" by (cases r)
  from valid_resolved_id [OF v Some [unfolded r]] obtain f where f: "heap m p = Some f" ..
  show ?thesis
    using Some r f valid_update_obj [OF v, of p]
    by (simp add: updateMsg_def Let_def valid_fold_emit)
qed

lemma removeMsg_valid:
  assumes v: "valid m"
  shows "(findDBCFile_id x m msg_id = None \<and> removeMsg x msg_id m = Inl AssertionFailed) \<or>
         (\<exists>m'. removeMsg x msg_id m = Inr m' \<and> valid m')"
proof (cases "findDBCFile_id x m msg_id")
  case None
  then show ?thesis by (simp add: removeMsg_def)
next
  case (Some r)
  obtain S p where r: "r = (S, p)" by (cases r)
  from valid_resolved_id [OF v Some [unfolded r]] obtain f where f: "heap m p = Some f" ..
  show ?thesis
    using Some r f valid_update_obj [OF v, of p]
    by (simp add: removeMsg_def Let_def valid_fold_emit)
qed

lemma queries_valid:
  assumes v: "valid m"
  shows "getMessages x m src \<noteq> Inl e \<and> msg x m msg_id \<noteq> Inl e \<and> msg_name x m src name \<noteq> Inl e"
proof -
  have "\<exists>f. heap m p = Some f" if "findDBCFile_id x m k = Some (S, p)" for k S p
    using v that by (rule valid_resolved_id)
  then show ?thesis
    by (fastforce simp: getMessages_def msg_def msg_name_def Let_def split: option.splits)
qed

end
